theory Spec2Isabelle
  imports Complex_Main "HOL-Library.Multiset"
begin

section \<open>The talent match engine of \<open>src/app.py\<close>\<close>

text \<open>
  \<open>build_match_sql\<close> returns one SQL query; the query is the engine. Each common table
  expression of the query is embedded as a function on lists of rows, in the order of
  the query text and under the name it has there. A nullable column is an \<open>option\<close>
  (\<open>None\<close> is SQL's NULL); identifiers, names, years and the configured weights are taken
  as not null. Numbers are exact rationals: the rounding of PostgreSQL's
  \<open>double precision\<close> and \<open>numeric\<close> arithmetic is not modelled.
\<close>

subsection \<open>Tables\<close>

record employee =
  emp_id :: string
  emp_fullname :: string
  emp_position_id :: "int option"

record performance =
  py_employee_id :: string
  py_year :: int
  py_rating :: "int option"

record competency =
  c_employee_id :: string
  c_pillar_code :: string
  c_year :: int
  c_score :: "rat option"

record profile =
  p_employee_id :: string
  p_iq :: "rat option"
  p_gtq :: "rat option"
  p_tiki :: "rat option"
  p_faxtor :: "rat option"
  p_pauli :: "rat option"
  p_mbti :: "string option"
  p_disc :: "string option"

record papi =
  ps_employee_id :: string
  ps_scale_code :: string
  ps_score :: "rat option"

record tv_mapping =
  m_tv_name :: string
  m_tgv_name :: string
  m_tv_weight :: rat

record group_weight =
  g_tgv_name :: string
  g_tgv_weight :: rat

record snapshot =
  employees :: "employee list"
  performance_yearly :: "performance list"
  competencies_yearly :: "competency list"
  profiles_psych :: "profile list"
  papi_scores :: "papi list"
  talent_variables_mapping :: "tv_mapping list"
  talent_group_weights :: "group_weight list"

text \<open>
  The row of the CTE \<open>params\<close>, as PostgreSQL has it once it has read the query text:
  \<open>manual_hp\<close> is the array that the text \<open>ARRAY[...]::text[]\<close> denotes, which is not always
  the list that \<open>build_match_sql\<close> was given. \<open>query_params\<close> below goes from the arguments
  of \<open>build_match_sql\<close> through the text to this row.
\<close>

record params =
  manual_hp :: "string list"
  role_position_id :: "int option"
  min_hp_rating :: int

subsection \<open>SQL operators on nullable values\<close>

text \<open>
  \<open>DivisionByZero\<close> is the error PostgreSQL raises; \<open>NotAnIdArray\<close> says that the text
  written for the manual ids is not a list of string constants, so that PostgreSQL reads
  another query or rejects the text.
\<close>

datatype error = DivisionByZero | NotAnIdArray

text \<open>\<open>py.rating >= p.min_hp_rating\<close> in a WHERE clause: a NULL comparison rejects the row.\<close>

definition rating_ge :: "int option \<Rightarrow> int \<Rightarrow> bool" where
  "rating_ge r m = (case r of None \<Rightarrow> False | Some k \<Rightarrow> m \<le> k)"

definition nullif0 :: "rat option \<Rightarrow> rat option" where
  "nullif0 x = (if x = Some 0 then None else x)"

definition sql_mul :: "rat option \<Rightarrow> rat option \<Rightarrow> rat option" where
  "sql_mul a b = (case a of None \<Rightarrow> None | Some x \<Rightarrow> (case b of None \<Rightarrow> None | Some y \<Rightarrow> Some (x * y)))"

definition sql_sub :: "rat option \<Rightarrow> rat option \<Rightarrow> rat option" where
  "sql_sub a b = (case a of None \<Rightarrow> None | Some x \<Rightarrow> (case b of None \<Rightarrow> None | Some y \<Rightarrow> Some (x - y)))"

text \<open>
  The operator \<open>/\<close>: strict in NULL (a NULL operand gives NULL and the division is not
  evaluated), and the error \<open>division by zero\<close> on a zero divisor.
\<close>

definition sql_div :: "rat option \<Rightarrow> rat option \<Rightarrow> error + rat option" where
  "sql_div a b =
     (case a of None \<Rightarrow> Inr None
      | Some x \<Rightarrow> (case b of None \<Rightarrow> Inr None
                  | Some y \<Rightarrow> if y = 0 then Inl DivisionByZero else Inr (Some (x / y))))"

definition times100 :: "error + rat option \<Rightarrow> error + rat option" where
  "times100 r = (case r of Inl e \<Rightarrow> Inl e | Inr q \<Rightarrow> Inr (sql_mul q (Some 100)))"

subsection \<open>Cohort: \<open>manual_set\<close> to \<open>final_bench\<close>\<close>

text \<open>\<open>SELECT unnest(manual_hp) AS employee_id FROM params\<close>, on the array of the row.\<close>

definition manual_set :: "params \<Rightarrow> string list" where
  "manual_set p = manual_hp p"

definition role_set :: "snapshot \<Rightarrow> params \<Rightarrow> string list" where
  "role_set db p =
     remdups [emp_id e. e \<leftarrow> employees db, py \<leftarrow> performance_yearly db,
              py_employee_id py = emp_id e,
              rating_ge (py_rating py) (min_hp_rating p),
              role_position_id p \<noteq> None,
              emp_position_id e = role_position_id p]"

definition benchmark_set :: "snapshot \<Rightarrow> params \<Rightarrow> string list" where
  "benchmark_set db p = remdups (manual_set p @ role_set db p)"

definition fallback_benchmark :: "snapshot \<Rightarrow> params \<Rightarrow> string list" where
  "fallback_benchmark db p =
     [py_employee_id py. py \<leftarrow> performance_yearly db,
      rating_ge (py_rating py) (min_hp_rating p)]"

definition final_bench :: "snapshot \<Rightarrow> params \<Rightarrow> string list" where
  "final_bench db p =
     remdups (remdups (benchmark_set db p)
              @ remdups [i. i \<leftarrow> fallback_benchmark db p, benchmark_set db p = []])"









subsection \<open>Match rates of one reading\<close>

text \<open>\<open>numeric_tv\<close>: \<open>(sc.user_score / NULLIF(bn.baseline_score,0)) * 100\<close>.\<close>

definition numeric_match_rate :: "rat option \<Rightarrow> rat option \<Rightarrow> error + rat option" where
  "numeric_match_rate baseline_score user_score =
     times100 (sql_div user_score (nullif0 baseline_score))"

text \<open>\<open>papi_tv\<close>: the CASE on \<open>bp.is_reverse\<close>.\<close>

definition papi_match_rate :: "bool \<Rightarrow> rat option \<Rightarrow> rat option \<Rightarrow> error + rat option" where
  "papi_match_rate is_reverse baseline_score score =
     (if is_reverse
      then times100 (sql_div (sql_sub (sql_mul (Some 2) baseline_score) score) (nullif0 baseline_score))
      else times100 (sql_div score (nullif0 baseline_score)))"

subsection \<open>Aggregates\<close>

definition non_null :: "'a option list \<Rightarrow> 'a list" where
  "non_null vs = [the v. v \<leftarrow> vs, v \<noteq> None]"

text \<open>
  \<open>PERCENTILE_CONT(fraction) WITHIN GROUP (ORDER BY v)\<close>: NULL inputs are skipped; over no
  input the result is NULL; otherwise the value at position \<open>fraction * (N - 1)\<close> of the
  sorted input, interpolated between the two adjacent rows when the position is not whole.
\<close>

definition percentile_cont :: "rat \<Rightarrow> rat option list \<Rightarrow> rat option" where
  "percentile_cont fraction vs =
     (let xs = sort (non_null vs); n = length xs in
      if n = 0 then None
      else let pos = fraction * of_nat (n - 1);
               first_row = nat \<lfloor>pos\<rfloor>;
               second_row = nat \<lceil>pos\<rceil>;
               proportion = pos - of_int \<lfloor>pos\<rfloor>
           in if first_row = second_row then Some (xs ! first_row)
              else Some (xs ! first_row + proportion * (xs ! second_row - xs ! first_row)))"

text \<open>\<open>SUM\<close>: NULL inputs are skipped; over no non-null input the result is NULL.\<close>

definition sql_sum :: "rat option list \<Rightarrow> rat option" where
  "sql_sum vs = (let xs = non_null vs in if xs = [] then None else Some (sum_list xs))"

text \<open>
  \<open>MODE() WITHIN GROUP (ORDER BY v)\<close>: the most frequent non-null input, the first in sort
  order among equally frequent ones (strings compared byte by byte); NULL over no input.
\<close>

fun str_less :: "string \<Rightarrow> string \<Rightarrow> bool" where
  "str_less [] [] = False"
| "str_less [] (y # ys) = True"
| "str_less (x # xs) [] = False"
| "str_less (x # xs) (y # ys) =
     ((of_char x :: nat) < of_char y \<or> (x = y \<and> str_less xs ys))"

definition mode_agg :: "string option list \<Rightarrow> string option" where
  "mode_agg vs =
     (let xs = non_null vs in
      case xs of [] \<Rightarrow> None
      | y # ys \<Rightarrow>
          Some (fold (\<lambda>x best.
                  if count_list xs best < count_list xs x
                     \<or> (count_list xs x = count_list xs best \<and> str_less x best)
                  then x else best) ys y))"

text \<open>\<open>UPPER(TRIM(v))\<close> on ASCII text: spaces removed at both ends, then letters upper-cased.\<close>

definition upper_char :: "char \<Rightarrow> char" where
  "upper_char c =
     (let n = (of_char c :: nat) in if 97 \<le> n \<and> n \<le> 122 then char_of (n - 32) else c)"

definition trim :: "string \<Rightarrow> string" where
  "trim s = dropWhile (\<lambda>c. c = CHR '' '') (rev (dropWhile (\<lambda>c. c = CHR '' '') (rev s)))"

definition upper_trim :: "string option \<Rightarrow> string option" where
  "upper_trim v = map_option (\<lambda>s. map upper_char (trim s)) v"

text \<open>Three-valued comparison and connectives; a CASE branch is taken when its condition is TRUE.\<close>

definition sql_eq :: "string option \<Rightarrow> string option \<Rightarrow> bool option" where
  "sql_eq a b = (case a of None \<Rightarrow> None | Some x \<Rightarrow> (case b of None \<Rightarrow> None | Some y \<Rightarrow> Some (x = y)))"

definition sql_and :: "bool option \<Rightarrow> bool option \<Rightarrow> bool option" where
  "sql_and a b =
     (if a = Some False \<or> b = Some False then Some False
      else if a = Some True \<and> b = Some True then Some True else None)"

definition sql_or :: "bool option \<Rightarrow> bool option \<Rightarrow> bool option" where
  "sql_or a b =
     (if a = Some True \<or> b = Some True then Some True
      else if a = Some False \<and> b = Some False then Some False else None)"

text \<open>A row-wise computation that can raise: the first error aborts the query.\<close>

fun collect :: "(error + 'a) list \<Rightarrow> error + 'a list" where
  "collect [] = Inr []"
| "collect (x # xs) =
     (case x of Inl e \<Rightarrow> Inl e
      | Inr v \<Rightarrow> (case collect xs of Inl e \<Rightarrow> Inl e | Inr vs \<Rightarrow> Inr (v # vs)))"

subsection \<open>Baselines and readings of the continuous variables\<close>

definition latest :: "snapshot \<Rightarrow> int option" where
  "latest db =
     (case map c_year (competencies_yearly db) of [] \<Rightarrow> None
      | y # ys \<Rightarrow> Some (fold max ys y))"

text \<open>The subquery \<open>x\<close> of \<open>baseline_numeric\<close>: rows \<open>(tv_name, score)\<close>.\<close>

definition baseline_numeric_x :: "snapshot \<Rightarrow> params \<Rightarrow> (string \<times> rat option) list" where
  "baseline_numeric_x db p =
     [(c_pillar_code c, c_score c). c \<leftarrow> competencies_yearly db,
        Some (c_year c) = latest db, c_employee_id c \<in> set (final_bench db p)]
     @ [(''iq'', p_iq pp). pp \<leftarrow> profiles_psych db, p_employee_id pp \<in> set (final_bench db p)]
     @ [(''gtq'', p_gtq pp). pp \<leftarrow> profiles_psych db, p_employee_id pp \<in> set (final_bench db p)]
     @ [(''tiki'', p_tiki pp). pp \<leftarrow> profiles_psych db, p_employee_id pp \<in> set (final_bench db p)]
     @ [(''faxtor'', p_faxtor pp). pp \<leftarrow> profiles_psych db, p_employee_id pp \<in> set (final_bench db p)]
     @ [(''pauli'', p_pauli pp). pp \<leftarrow> profiles_psych db, p_employee_id pp \<in> set (final_bench db p)]"

text \<open>Rows \<open>(tv_name, baseline_score)\<close>, one for each \<open>tv_name\<close> of \<open>x\<close>.\<close>

definition baseline_numeric :: "snapshot \<Rightarrow> params \<Rightarrow> (string \<times> rat option) list" where
  "baseline_numeric db p =
     (let x = baseline_numeric_x db p in
      [(tv, percentile_cont (1/2) [s. (t, s) \<leftarrow> x, t = tv]). tv \<leftarrow> remdups (map fst x)])"

record reading =
  r_employee_id :: string
  r_tv_name :: string
  r_user_score :: "rat option"

definition all_numeric_scores :: "snapshot \<Rightarrow> reading list" where
  "all_numeric_scores db =
     [\<lparr>r_employee_id = c_employee_id c, r_tv_name = c_pillar_code c, r_user_score = c_score c\<rparr>.
        c \<leftarrow> competencies_yearly db, Some (c_year c) = latest db]
     @ [\<lparr>r_employee_id = p_employee_id pp, r_tv_name = ''iq'', r_user_score = p_iq pp\<rparr>.
        pp \<leftarrow> profiles_psych db]
     @ [\<lparr>r_employee_id = p_employee_id pp, r_tv_name = ''gtq'', r_user_score = p_gtq pp\<rparr>.
        pp \<leftarrow> profiles_psych db]
     @ [\<lparr>r_employee_id = p_employee_id pp, r_tv_name = ''tiki'', r_user_score = p_tiki pp\<rparr>.
        pp \<leftarrow> profiles_psych db]
     @ [\<lparr>r_employee_id = p_employee_id pp, r_tv_name = ''faxtor'', r_user_score = p_faxtor pp\<rparr>.
        pp \<leftarrow> profiles_psych db]
     @ [\<lparr>r_employee_id = p_employee_id pp, r_tv_name = ''pauli'', r_user_score = p_pauli pp\<rparr>.
        pp \<leftarrow> profiles_psych db]"

text \<open>The columns of \<open>numeric_tv\<close>, \<open>papi_tv\<close>, \<open>categorical_tv\<close> and \<open>all_tv\<close>.\<close>

record tv_row =
  tv_employee_id :: string
  tv_name :: string
  tv_baseline_score :: "rat option"
  tv_user_score :: "rat option"
  tv_match_rate :: "rat option"

definition numeric_tv :: "snapshot \<Rightarrow> params \<Rightarrow> error + tv_row list" where
  "numeric_tv db p =
     collect
       [case numeric_match_rate (snd bn) (r_user_score sc) of
          Inl e \<Rightarrow> Inl e
        | Inr rate \<Rightarrow>
            Inr \<lparr>tv_employee_id = r_employee_id sc, tv_name = fst bn,
                 tv_baseline_score = snd bn, tv_user_score = r_user_score sc,
                 tv_match_rate = rate\<rparr>.
        sc \<leftarrow> all_numeric_scores db, bn \<leftarrow> baseline_numeric db p, r_tv_name sc = fst bn]"

definition reverse_list :: "string list" where
  "reverse_list = [''Papi_I'', ''Papi_K'', ''Papi_Z'', ''Papi_T'']"

text \<open>
  \<open>LEFT JOIN reverse_list rl ON rl.scale_code = ps.scale_code\<close>: the matching rows of
  \<open>reverse_list\<close>, or one row with \<open>rl.scale_code\<close> NULL when there is none.
\<close>

definition left_join_reverse_list :: "string \<Rightarrow> string option list" where
  "left_join_reverse_list sc =
     (let ms = [Some rl. rl \<leftarrow> reverse_list, rl = sc] in if ms = [] then [None] else ms)"

definition baseline_papi_joined :: "snapshot \<Rightarrow> params \<Rightarrow> (papi \<times> string option) list" where
  "baseline_papi_joined db p =
     [(ps, rl). ps \<leftarrow> papi_scores db, fb \<leftarrow> final_bench db p, ps_employee_id ps = fb,
                rl \<leftarrow> left_join_reverse_list (ps_scale_code ps)]"

text \<open>Rows \<open>(tv_name, baseline_score, is_reverse)\<close>.\<close>

definition baseline_papi :: "snapshot \<Rightarrow> params \<Rightarrow> (string \<times> rat option \<times> bool) list" where
  "baseline_papi db p =
     (let j = baseline_papi_joined db p in
      [(fst k,
        percentile_cont (1/2) [ps_score (fst r). r \<leftarrow> j, (ps_scale_code (fst r), snd r) = k],
        (case snd k of None \<Rightarrow> False | Some c \<Rightarrow> True)).
       k \<leftarrow> remdups [(ps_scale_code (fst r), snd r). r \<leftarrow> j]])"

definition papi_tv :: "snapshot \<Rightarrow> params \<Rightarrow> error + tv_row list" where
  "papi_tv db p =
     collect
       [case papi_match_rate (snd (snd bp)) (fst (snd bp)) (ps_score ps) of
          Inl e \<Rightarrow> Inl e
        | Inr rate \<Rightarrow>
            Inr \<lparr>tv_employee_id = ps_employee_id ps, tv_name = fst bp,
                 tv_baseline_score = fst (snd bp), tv_user_score = ps_score ps,
                 tv_match_rate = rate\<rparr>.
        ps \<leftarrow> papi_scores db, bp \<leftarrow> baseline_papi db p, ps_scale_code ps = fst bp]"

subsection \<open>Categorical variables\<close>

text \<open>Rows \<open>(tv_name, baseline_value)\<close>: an aggregate without GROUP BY always gives its row.\<close>

definition baseline_cat :: "snapshot \<Rightarrow> params \<Rightarrow> (string \<times> string option) list" where
  "baseline_cat db p =
     [(''mbti'', mode_agg [upper_trim (p_mbti pp).
                            pp \<leftarrow> profiles_psych db, fb \<leftarrow> final_bench db p, fb = p_employee_id pp])]
     @ [(''disc'', mode_agg [upper_trim (p_disc pp).
                            pp \<leftarrow> profiles_psych db, fb \<leftarrow> final_bench db p, fb = p_employee_id pp])]"

definition categorical_match_rate :: "profile \<Rightarrow> string \<times> string option \<Rightarrow> rat option" where
  "categorical_match_rate pp bc =
     (if sql_or (sql_and (Some (fst bc = ''mbti'')) (sql_eq (upper_trim (p_mbti pp)) (snd bc)))
                (sql_and (Some (fst bc = ''disc'')) (sql_eq (upper_trim (p_disc pp)) (snd bc)))
         = Some True
      then Some 100 else Some 0)"

definition categorical_tv :: "snapshot \<Rightarrow> params \<Rightarrow> tv_row list" where
  "categorical_tv db p =
     [\<lparr>tv_employee_id = p_employee_id pp, tv_name = fst bc,
       tv_baseline_score = Some 1, tv_user_score = Some 1,
       tv_match_rate = categorical_match_rate pp bc\<rparr>.
      pp \<leftarrow> profiles_psych db, bc \<leftarrow> baseline_cat db p]"

subsection \<open>Rollup\<close>

definition all_tv :: "snapshot \<Rightarrow> params \<Rightarrow> error + tv_row list" where
  "all_tv db p =
     (case numeric_tv db p of Inl e \<Rightarrow> Inl e
      | Inr n \<Rightarrow> (case papi_tv db p of Inl e \<Rightarrow> Inl e
                  | Inr pa \<Rightarrow> Inr (n @ pa @ categorical_tv db p)))"

definition tv_map :: "snapshot \<Rightarrow> tv_mapping list" where
  "tv_map db = talent_variables_mapping db"

record tgv_row =
  tgv_employee_id :: string
  tgv_name :: string
  tgv_match_rate :: "rat option"

text \<open>
  \<open>tgv_match\<close> as a function of the two tables it reads: the join on \<open>tv_name\<close>, one group
  for each \<open>(employee_id, tgv_name)\<close> of the join, and the quotient of the two sums.
\<close>

definition tgv_joined :: "tv_row list \<Rightarrow> tv_mapping list \<Rightarrow> (tv_row \<times> tv_mapping) list" where
  "tgv_joined a m = [(ar, mr). ar \<leftarrow> a, mr \<leftarrow> m, tv_name ar = m_tv_name mr]"

definition tgv_group :: "tv_row list \<Rightarrow> tv_mapping list \<Rightarrow> string \<times> string \<Rightarrow> (tv_row \<times> tv_mapping) list" where
  "tgv_group a m k = [r. r \<leftarrow> tgv_joined a m, (tv_employee_id (fst r), m_tgv_name (snd r)) = k]"

definition tgv_numerator :: "(tv_row \<times> tv_mapping) list \<Rightarrow> rat option" where
  "tgv_numerator rows = sql_sum [sql_mul (tv_match_rate (fst r)) (Some (m_tv_weight (snd r))). r \<leftarrow> rows]"

definition tgv_denominator :: "(tv_row \<times> tv_mapping) list \<Rightarrow> rat option" where
  "tgv_denominator rows = sql_sum [Some (m_tv_weight (snd r)). r \<leftarrow> rows]"

definition tgv_match_of :: "tv_row list \<Rightarrow> tv_mapping list \<Rightarrow> error + tgv_row list" where
  "tgv_match_of a m =
     collect
       [case sql_div (tgv_numerator (tgv_group a m k)) (tgv_denominator (tgv_group a m k)) of
          Inl e \<Rightarrow> Inl e
        | Inr rate \<Rightarrow> Inr \<lparr>tgv_employee_id = fst k, tgv_name = snd k, tgv_match_rate = rate\<rparr>.
        k \<leftarrow> remdups [(tv_employee_id (fst r), m_tgv_name (snd r)). r \<leftarrow> tgv_joined a m]]"

definition tgv_match :: "snapshot \<Rightarrow> params \<Rightarrow> error + tgv_row list" where
  "tgv_match db p =
     (case all_tv db p of Inl e \<Rightarrow> Inl e | Inr a \<Rightarrow> tgv_match_of a (tv_map db))"

record fm_row =
  fm_employee_id :: string
  fm_final_match_rate :: "rat option"

definition final_joined :: "tgv_row list \<Rightarrow> group_weight list \<Rightarrow> (tgv_row \<times> group_weight) list" where
  "final_joined t g = [(tr, gr). tr \<leftarrow> t, gr \<leftarrow> g, tgv_name tr = g_tgv_name gr]"

definition final_match_of :: "tgv_row list \<Rightarrow> group_weight list \<Rightarrow> fm_row list" where
  "final_match_of t g =
     [\<lparr>fm_employee_id = e,
       fm_final_match_rate =
         sql_sum [sql_mul (tgv_match_rate (fst r)) (Some (g_tgv_weight (snd r))).
                  r \<leftarrow> final_joined t g, tgv_employee_id (fst r) = e]\<rparr>.
      e \<leftarrow> remdups [tgv_employee_id (fst r). r \<leftarrow> final_joined t g]]"

definition final_match :: "snapshot \<Rightarrow> params \<Rightarrow> error + fm_row list" where
  "final_match db p =
     (case tgv_match db p of Inl e \<Rightarrow> Inl e
      | Inr t \<Rightarrow> Inr (final_match_of t (talent_group_weights db)))"

subsection \<open>The final SELECT\<close>

record out_row =
  out_employee_id :: string
  out_fullname :: string
  out_final_match_rate :: "rat option"

definition select_rows :: "fm_row list \<Rightarrow> employee list \<Rightarrow> out_row list" where
  "select_rows fm es =
     [\<lparr>out_employee_id = emp_id e, out_fullname = emp_fullname e,
       out_final_match_rate = fm_final_match_rate f\<rparr>.
      f \<leftarrow> fm, e \<leftarrow> es, fm_employee_id f = emp_id e]"

text \<open>
  \<open>ORDER BY final_match_rate DESC\<close>: \<open>desc_before a b\<close> says that a row with key \<open>a\<close> may
  stand before a row with key \<open>b\<close>. NULL sorts as larger than every number, so it comes
  first in descending order.
\<close>

definition desc_before :: "rat option \<Rightarrow> rat option \<Rightarrow> bool" where
  "desc_before a b =
     (case a of None \<Rightarrow> True | Some x \<Rightarrow> (case b of None \<Rightarrow> False | Some y \<Rightarrow> y \<le> x))"

text \<open>
  The query names no second sort key, and SQL leaves the order of rows with equal keys to
  the implementation. The sort is therefore a relation: any row whose key may stand before
  all the others can come next.
\<close>

inductive order_by_desc :: "out_row list \<Rightarrow> out_row list \<Rightarrow> bool" where
  order_by_desc_Nil: "order_by_desc [] []"
| order_by_desc_Cons:
    "r \<in> set rows \<Longrightarrow>
     list_all (\<lambda>r'. desc_before (out_final_match_rate r) (out_final_match_rate r')) rows \<Longrightarrow>
     order_by_desc (remove1 r rows) ys \<Longrightarrow>
     order_by_desc rows (r # ys)"

code_pred order_by_desc .

text \<open>\<open>LIMIT n\<close>: the first \<open>n\<close> rows of the ordering.\<close>

inductive order_by_desc_limit :: "nat \<Rightarrow> out_row list \<Rightarrow> out_row list \<Rightarrow> bool" where
  order_by_desc_limitI:
    "order_by_desc rows ys \<Longrightarrow> out = take n ys \<Longrightarrow> order_by_desc_limit n rows out"

code_pred order_by_desc_limit .

definition LIMIT :: nat where
  "LIMIT = 200"

text \<open>\<open>run_match_query\<close>: an error of the query is raised; otherwise any admissible ordering.\<close>

definition run_match_rows :: "snapshot \<Rightarrow> params \<Rightarrow> error + out_row list" where
  "run_match_rows db p =
     (case final_match db p of Inl e \<Rightarrow> Inl e
      | Inr fm \<Rightarrow> Inr (select_rows fm (employees db)))"

definition run_match_query :: "snapshot \<Rightarrow> params \<Rightarrow> out_row list \<Rightarrow> bool" where
  "run_match_query db p out =
     (case run_match_rows db p of Inl e \<Rightarrow> False
      | Inr rows \<Rightarrow> order_by_desc_limit LIMIT rows out)"

subsection \<open>The median, and the readings of the cohort\<close>

text \<open>
  The median as the specification describes it: the middle value of the sorted sample, or
  the mean of the two middle values when the sample has an even size.
\<close>

definition median :: "rat list \<Rightarrow> rat option" where
  "median xs =
     (let s = sort xs; n = length s in
      if n = 0 then None
      else if odd n then Some (s ! (n div 2))
      else Some ((s ! (n div 2 - 1) + s ! (n div 2)) / 2))"

text \<open>The non-null readings that \<open>all_numeric_scores\<close> holds for a variable and the cohort.\<close>

definition numeric_cohort_readings :: "snapshot \<Rightarrow> params \<Rightarrow> string \<Rightarrow> rat list" where
  "numeric_cohort_readings db p tv =
     non_null [r_user_score r. r \<leftarrow> all_numeric_scores db,
               r_employee_id r \<in> set (final_bench db p), r_tv_name r = tv]"

text \<open>The non-null scores that \<open>papi_scores\<close> holds for a scale and the cohort.\<close>

definition papi_cohort_readings :: "snapshot \<Rightarrow> params \<Rightarrow> string \<Rightarrow> rat list" where
  "papi_cohort_readings db p sc =
     non_null [ps_score ps. ps \<leftarrow> papi_scores db,
               ps_employee_id ps \<in> set (final_bench db p), ps_scale_code ps = sc]"

subsection \<open>The text of the manual id array\<close>

text \<open>
  \<open>build_match_sql\<close> writes the manual ids into the query text:
  \<^verbatim>\<open>manual_list_sql = ",".join(f"'{emp}'" for emp in manual_hp_ids)\<close>.
\<close>

fun str_join :: "string \<Rightarrow> string list \<Rightarrow> string" where
  "str_join sep [] = []"
| "str_join sep [x] = x"
| "str_join sep (x # y # ys) = x @ sep @ str_join sep (y # ys)"

definition quoted :: "string \<Rightarrow> string" where
  "quoted emp = [CHR 0x27] @ emp @ [CHR 0x27]"

definition manual_list_sql :: "string list \<Rightarrow> string" where
  "manual_list_sql manual_hp_ids = str_join '','' (map quoted manual_hp_ids)"

definition manual_array_sql :: "string list \<Rightarrow> string" where
  "manual_array_sql manual_hp_ids =
     (if manual_hp_ids \<noteq> [] then ''ARRAY['' @ manual_list_sql manual_hp_ids @ '']::text[]''
      else ''ARRAY[]::text[]'')"

text \<open>
  What PostgreSQL reads in such a text: after \<open>ARRAY[\<close>, string constants separated by
  commas, up to \<open>]::text[]\<close>. A string constant starts and ends with a single quote, and
  inside it two single quotes in a row stand for one.
\<close>

datatype scan_state = Start | InLit | AfterQuote

fun scan :: "scan_state \<Rightarrow> string list \<Rightarrow> string \<Rightarrow> string \<Rightarrow> string list option" where
  "scan Start lits cur [] = None"
| "scan Start lits cur (c # cs) = (if c = CHR 0x27 then scan InLit lits [] cs else None)"
| "scan InLit lits cur [] = None"
| "scan InLit lits cur (c # cs) =
     (if c = CHR 0x27 then scan AfterQuote lits cur cs else scan InLit lits (cur @ [c]) cs)"
| "scan AfterQuote lits cur [] = None"
| "scan AfterQuote lits cur (c # cs) =
     (if c # cs = '']::text[]'' then Some (lits @ [cur])
      else if c = CHR 0x27 then scan InLit lits (cur @ [c]) cs
      else if c = CHR '','' then scan Start (lits @ [cur]) [] cs
      else None)"

definition array_ids :: "string \<Rightarrow> string list option" where
  "array_ids t =
     (if t = ''ARRAY[]::text[]'' then Some []
      else if take 6 t = ''ARRAY['' then scan Start [] [] (drop 6 t)
      else None)"



text \<open>The value of \<open>rl.scale_code\<close> that the left join gives to a row with scale code \<open>sc\<close>.\<close>

definition rl_of :: "string \<Rightarrow> string option" where
  "rl_of sc = (if sc \<in> set reverse_list then Some sc else None)"

subsection \<open>Example snapshots\<close>

definition example_profile :: "string \<Rightarrow> rat option \<Rightarrow> rat option \<Rightarrow> string option \<Rightarrow> profile" where
  "example_profile i iq gtq mbti =
     \<lparr>p_employee_id = i, p_iq = iq, p_gtq = gtq, p_tiki = None, p_faxtor = None,
      p_pauli = None, p_mbti = mbti, p_disc = None\<rparr>"

definition example_employees :: "employee list" where
  "example_employees =
     [\<lparr>emp_id = ''E1'', emp_fullname = ''Ann'', emp_position_id = Some 1\<rparr>,
      \<lparr>emp_id = ''E2'', emp_fullname = ''Bob'', emp_position_id = Some 1\<rparr>,
      \<lparr>emp_id = ''E3'', emp_fullname = ''Cid'', emp_position_id = Some 2\<rparr>,
      \<lparr>emp_id = ''E4'', emp_fullname = ''Dee'', emp_position_id = Some 2\<rparr>,
      \<lparr>emp_id = ''E5'', emp_fullname = ''Eve'', emp_position_id = None\<rparr>]"

text \<open>Five employees; \<open>E5\<close> is in no cohort below and has the outlying readings.\<close>

definition db_cohort :: snapshot where
  "db_cohort =
     \<lparr>employees = example_employees,
      performance_yearly =
        [\<lparr>py_employee_id = ''E1'', py_year = 2024, py_rating = Some 5\<rparr>,
         \<lparr>py_employee_id = ''E2'', py_year = 2024, py_rating = Some 3\<rparr>,
         \<lparr>py_employee_id = ''E3'', py_year = 2024, py_rating = Some 5\<rparr>,
         \<lparr>py_employee_id = ''E4'', py_year = 2024, py_rating = None\<rparr>],
      competencies_yearly =
        [\<lparr>c_employee_id = ''E1'', c_pillar_code = ''GDR'', c_year = 2023, c_score = Some 1\<rparr>,
         \<lparr>c_employee_id = ''E1'', c_pillar_code = ''GDR'', c_year = 2024, c_score = Some 10\<rparr>,
         \<lparr>c_employee_id = ''E2'', c_pillar_code = ''GDR'', c_year = 2024, c_score = Some 20\<rparr>,
         \<lparr>c_employee_id = ''E5'', c_pillar_code = ''GDR'', c_year = 2024, c_score = Some 999\<rparr>],
      profiles_psych =
        [example_profile ''E1'' (Some 10) None None,
         example_profile ''E2'' (Some 20) None None,
         example_profile ''E3'' (Some 30) None None,
         example_profile ''E4'' None None None,
         example_profile ''E5'' (Some 1000) None None],
      papi_scores =
        [\<lparr>ps_employee_id = ''E1'', ps_scale_code = ''Papi_I'', ps_score = Some 10\<rparr>,
         \<lparr>ps_employee_id = ''E2'', ps_scale_code = ''Papi_I'', ps_score = Some 20\<rparr>,
         \<lparr>ps_employee_id = ''E3'', ps_scale_code = ''Papi_I'', ps_score = Some 30\<rparr>,
         \<lparr>ps_employee_id = ''E4'', ps_scale_code = ''Papi_I'', ps_score = Some 40\<rparr>,
         \<lparr>ps_employee_id = ''E5'', ps_scale_code = ''Papi_I'', ps_score = Some 500\<rparr>],
      talent_variables_mapping = [],
      talent_group_weights = []\<rparr>"



definition p_manual :: params where
  "p_manual = \<lparr>manual_hp = [''E1'', ''E2'', ''E3'', ''E4''], role_position_id = None, min_hp_rating = 5\<rparr>"

text \<open>
  The number of characters a string constant takes between its quotes when every single
  quote in it is written twice, and the same for a list, with three more characters for
  each element (two quotes and one separator).
\<close>

definition cost :: "string \<Rightarrow> nat" where
  "cost c = length c + count_list c (CHR 0x27)"

definition costs :: "string list \<Rightarrow> nat" where
  "costs L = sum_list (map (\<lambda>c. cost c + 3) L)"

abbreviation rate_before :: "out_row \<Rightarrow> out_row \<Rightarrow> bool" where
  "rate_before a b \<equiv> desc_before (out_final_match_rate a) (out_final_match_rate b)"

text \<open>
  Two employees, no performance rows, and one group \<open>G\<close> of weight 2; the cohort of
  \<open>p_E1\<close> is the manual id \<open>E1\<close>.
\<close>

definition example_db :: "profile list \<Rightarrow> tv_mapping list \<Rightarrow> snapshot" where
  "example_db profiles mapping =
     \<lparr>employees = [\<lparr>emp_id = ''E1'', emp_fullname = ''Ann'', emp_position_id = Some 1\<rparr>,
                   \<lparr>emp_id = ''E2'', emp_fullname = ''Bob'', emp_position_id = Some 1\<rparr>],
      performance_yearly = [],
      competencies_yearly = [],
      profiles_psych = profiles,
      papi_scores = [],
      talent_variables_mapping = mapping,
      talent_group_weights = [\<lparr>g_tgv_name = ''G'', g_tgv_weight = 2\<rparr>]\<rparr>"

definition p_E1 :: params where
  "p_E1 = \<lparr>manual_hp = [''E1''], role_position_id = None, min_hp_rating = 5\<rparr>"

definition iq_gtq_mapping :: "rat \<Rightarrow> rat \<Rightarrow> tv_mapping list" where
  "iq_gtq_mapping w1 w2 =
     [\<lparr>m_tv_name = ''iq'', m_tgv_name = ''G'', m_tv_weight = w1\<rparr>,
      \<lparr>m_tv_name = ''gtq'', m_tgv_name = ''G'', m_tv_weight = w2\<rparr>]"

definition db_null :: snapshot where
  "db_null = example_db [example_profile ''E1'' (Some 100) (Some 100) (Some ''intj ''),
                         example_profile ''E2'' None (Some 50) None]
                        (iq_gtq_mapping 1 3)"

definition db_zero :: snapshot where
  "db_zero = example_db [example_profile ''E1'' (Some 0) (Some 50) None,
                         example_profile ''E2'' (Some 100) (Some 40) None]
                        (iq_gtq_mapping 1 1)"

definition db_w0 :: snapshot where
  "db_w0 = example_db [example_profile ''E1'' (Some 100) None None]
                      [\<lparr>m_tv_name = ''iq'', m_tgv_name = ''G'', m_tv_weight = 0\<rparr>]"

definition db_undef :: snapshot where
  "db_undef = example_db [example_profile ''E1'' (Some 0) (Some 50) None,
                          example_profile ''E2'' (Some 10) None None]
                         (iq_gtq_mapping 1 1)"


text \<open>
  What enters the rollup of a group \<open>(employee_id, tgv_name)\<close>: the variable, match rate
  and weight of each joined row.
\<close>

definition group_inputs :: "snapshot \<Rightarrow> params \<Rightarrow> string \<times> string \<Rightarrow> (string \<times> rat option \<times> rat) list" where
  "group_inputs db p k =
     (case all_tv db p of Inl e \<Rightarrow> []
      | Inr a \<Rightarrow> [(tv_name (fst r), tv_match_rate (fst r), m_tv_weight (snd r)).
                  r \<leftarrow> tgv_group a (tv_map db) k])"

section \<open>Properties\<close>

subsection \<open>The manual id array in the query text\<close>

lemma scan_lit:
  "CHR 0x27 \<notin> set e \<Longrightarrow> scan InLit lits cur (e @ CHR 0x27 # rest) = scan AfterQuote lits (cur @ e) rest"
  by (induction e arbitrary: cur) auto

lemma scan_quoted_list:
  "ids \<noteq> [] \<Longrightarrow> \<forall>e \<in> set ids. CHR 0x27 \<notin> set e \<Longrightarrow>
   scan Start lits cur (str_join '','' (map quoted ids) @ '']::text[]'') = Some (lits @ ids)"
proof (induction ids arbitrary: lits cur rule: list_nonempty_induct)
  case (single e)
  then show ?case
    using scan_lit [of e lits "[]" "'']::text[]''"] by (simp add: quoted_def)
next
  case (cons e es)
  then obtain e' es' where es: "es = e' # es'" by (cases es) auto
  have "scan Start lits cur (str_join '','' (map quoted (e # es)) @ '']::text[]'')
      = scan AfterQuote lits e ('','' @ str_join '','' (map quoted es) @ '']::text[]'')"
    using cons.prems scan_lit [of e lits "[]" "'','' @ str_join '','' (map quoted es) @ '']::text[]''"]
    by (simp add: quoted_def es)
  also have "\<dots> = scan Start (lits @ [e]) [] (str_join '','' (map quoted es) @ '']::text[]'')"
    by simp
  also have "\<dots> = Some ((lits @ [e]) @ es)"
    using cons.IH [of "lits @ [e]" "[]"] cons.prems by simp
  finally show ?case by simp
qed

lemma cost_app: "cost (a @ b) = cost a + cost b"
  by (simp add: cost_def)

lemma scan_length:
  "scan st lits cur t = Some L \<Longrightarrow>
   (case st of
      Start \<Rightarrow> \<exists>items. L = lits @ items \<and> items \<noteq> [] \<and> length t = costs items + 8
    | InLit \<Rightarrow> \<exists>x items. L = lits @ (cur @ x) # items \<and> length t = cost x + costs items + 10
    | AfterQuote \<Rightarrow> \<exists>x items. L = lits @ (cur @ x) # items \<and> length t = cost x + costs items + 9)"
proof (induction st lits cur t arbitrary: L rule: scan.induct)
  case (1 lits cur)
  then show ?case by simp
next
  case (2 lits cur c cs)
  then have c: "c = CHR 0x27" and s: "scan InLit lits [] cs = Some L"
    by (auto split: if_splits)
  from 2(1) [OF c s] obtain x items where "L = lits @ x # items" "length cs = cost x + costs items + 10"
    by auto
  then show ?case
    by (auto simp: costs_def intro!: exI [of _ "x # items"])
next
  case (3 lits cur)
  then show ?case by simp
next
  case (4 lits cur c cs)
  show ?case
  proof (cases "c = CHR 0x27")
    case True
    with 4(3) have s: "scan AfterQuote lits cur cs = Some L" by simp
    from 4(1) [OF True s] show ?thesis by auto
  next
    case False
    with 4(3) have s: "scan InLit lits (cur @ [c]) cs = Some L" by simp
    from 4(2) [OF False s] obtain x items
      where "L = lits @ ((cur @ [c]) @ x) # items" "length cs = cost x + costs items + 10"
      by auto
    then show ?thesis
      using False by (auto simp: cost_def intro!: exI [of _ "c # x"] exI [of _ items])
  qed
next
  case (5 lits cur)
  then show ?case by simp
next
  case (6 lits cur c cs)
  show ?case
  proof (cases "c # cs = '']::text[]''")
    case True
    with 6(3) have "L = lits @ [cur]" by simp
    then show ?thesis
      using True by (auto simp: costs_def cost_def intro!: exI [of _ "[]"])
  next
    case ne: False
    show ?thesis
    proof (cases "c = CHR 0x27")
      case True
      with ne 6(3) have s: "scan InLit lits (cur @ [c]) cs = Some L" by simp
      from 6(1) [OF ne True s] obtain x items
        where "L = lits @ ((cur @ [c]) @ x) # items" "length cs = cost x + costs items + 10"
        by auto
      then show ?thesis
        using True by (auto simp: cost_def intro!: exI [of _ "c # x"] exI [of _ items])
    next
      case nq: False
      show ?thesis
      proof (cases "c = CHR '',''")
        case True
        with ne nq 6(3) have s: "scan Start (lits @ [cur]) [] cs = Some L" by simp
        from 6(2) [OF ne nq True s] obtain items
          where "L = (lits @ [cur]) @ items" "items \<noteq> []" "length cs = costs items + 8"
          by auto
        then show ?thesis
          by (auto simp: cost_def intro!: exI [of _ "[]"] exI [of _ items])
      next
        case False
        with ne nq 6(3) show ?thesis by (auto split: if_splits)
      qed
    qed
  qed
qed

lemma length_str_join_quoted:
  "ids \<noteq> [] \<Longrightarrow> length (str_join '','' (map quoted ids)) + 1 = sum_list (map (\<lambda>c. length c + 3) ids)"
  by (induction ids rule: list_nonempty_induct) (auto simp: quoted_def neq_Nil_conv)


lemma manual_array_sql_scan:
  "ids \<noteq> [] \<Longrightarrow> array_ids (manual_array_sql ids) = scan Start [] [] (manual_list_sql ids @ '']::text[]'')"
proof -
  assume ne: "ids \<noteq> []"
  then obtain e es where "ids = e # es" by (cases ids) auto
  then have "manual_list_sql ids \<noteq> []"
    by (cases es) (simp_all add: manual_list_sql_def quoted_def)
  then show ?thesis
    using ne by (simp add: array_ids_def manual_array_sql_def)
qed

lemma sum_list_eq_imp:
  "sum_list (map (\<lambda>c. f c + g (c::string) + (3::nat)) L) = sum_list (map (\<lambda>c. f c + 3) L) \<Longrightarrow> \<forall>c \<in> set L. g c = 0"
proof -
  assume a: "sum_list (map (\<lambda>c. f c + g c + 3) L) = sum_list (map (\<lambda>c. f c + 3) L)"
  have "sum_list (map (\<lambda>c. f c + g c + 3) L) = sum_list (map (\<lambda>c. f c + 3) L) + sum_list (map g L)"
    by (induction L) auto
  with a have "sum_list (map g L) = 0" by simp
  then show ?thesis by simp
qed

lemma array_ids_iff:
  "array_ids (manual_array_sql ids) = Some ids \<longleftrightarrow> (\<forall>e \<in> set ids. CHR 0x27 \<notin> set e)"
proof (cases "ids = []")
  case True
  then show ?thesis by (simp add: array_ids_def manual_array_sql_def)
next
  case False
  show ?thesis
  proof
    assume "\<forall>e \<in> set ids. CHR 0x27 \<notin> set e"
    then show "array_ids (manual_array_sql ids) = Some ids"
      using False scan_quoted_list [of ids "[]" "[]"]
      by (simp add: manual_array_sql_scan manual_list_sql_def)
  next
    assume "array_ids (manual_array_sql ids) = Some ids"
    then have "scan Start [] [] (manual_list_sql ids @ '']::text[]'') = Some ids"
      using False by (simp add: manual_array_sql_scan)
    from scan_length [OF this] have "length (manual_list_sql ids @ '']::text[]'') = costs ids + 8"
      by simp
    moreover have "length (manual_list_sql ids @ '']::text[]'') = sum_list (map (\<lambda>c. length c + 3) ids) + 8"
      using length_str_join_quoted [OF False] by (simp add: manual_list_sql_def)
    ultimately have "sum_list (map (\<lambda>c. length c + count_list c (CHR 0x27) + 3) ids) = sum_list (map (\<lambda>c. length c + 3) ids)"
      by (simp add: costs_def cost_def)
    from sum_list_eq_imp [OF this] show "\<forall>e \<in> set ids. CHR 0x27 \<notin> set e"
      by (auto simp: count_list_0_iff)
  qed
qed

text \<open>
  C10. Each manual id is written between two single quotes as it is. The array text of
  the query reads back as the given id list exactly when no id holds a single quote. An
  id with one quote in it gives a text that is no list of string constants, and an id
  can close its own constant and open another one, so that its text becomes syntax.
\<close>

theorem C10_manual_ids_unescaped:
  "manual_list_sql [x] = [CHR 0x27] @ x @ [CHR 0x27]
   \<and> (array_ids (manual_array_sql ids) = Some ids
        \<longleftrightarrow> (\<forall>e \<in> set ids. CHR 0x27 \<notin> set e))
   \<and> array_ids (manual_array_sql [[CHR ''a'', CHR 0x27, CHR ''b'']]) = None
   \<and> array_ids (manual_array_sql [[CHR ''a'', CHR 0x27, CHR '','', CHR 0x27, CHR ''b'']])
        = Some [''a'', ''b'']"
proof -
  have "manual_list_sql [x] = [CHR 0x27] @ x @ [CHR 0x27]"
    by (simp add: manual_list_sql_def quoted_def)
  moreover have "array_ids (manual_array_sql [[CHR ''a'', CHR 0x27, CHR ''b'']]) = None"
    by code_simp
  moreover have
    "array_ids (manual_array_sql [[CHR ''a'', CHR 0x27, CHR '','', CHR 0x27, CHR ''b'']])
       = Some [''a'', ''b'']"
    by code_simp
  ultimately show ?thesis
    using array_ids_iff [of ids] by blast
qed

theorem C10_manual_ids_witness:
  "CHR 0x27 \<notin> set ''E1'' \<and> CHR 0x27 \<notin> set ''E2''
   \<and> array_ids (manual_array_sql [''E1'', ''E2'']) = Some [''E1'', ''E2'']"
proof -
  have q: "\<forall>e \<in> set [''E1'', ''E2'']. CHR 0x27 \<notin> set e"
    by simp
  with C10_manual_ids_unescaped [of "[]" "[''E1'', ''E2'']"] show ?thesis
    by simp
qed

subsection \<open>Cohort resolution\<close>










subsection \<open>Baselines\<close>

lemma floor_half_odd: "\<lfloor>(1/2::rat) * of_nat (2 * k + 1)\<rfloor> = int k"
  by (simp add: floor_unique)

lemma ceil_half_odd: "\<lceil>(1/2::rat) * of_nat (2 * k + 1)\<rceil> = int k + 1"
  by (simp add: ceiling_unique)

text \<open>PostgreSQL's interpolation at the fraction one half is the median.\<close>

lemma percentile_cont_half_median: "percentile_cont (1/2) vs = median (non_null vs)"
proof -
  define xs where "xs = sort (non_null vs)"
  define n where "n = length xs"
  consider "n = 0" | k where "n = 2 * k + 1" | k where "n = 2 * k + 2"
    by (metis One_nat_def Suc_1 add.commute add_Suc_right even_Suc not0_implies_Suc oddE plus_1_eq_Suc)
  then show ?thesis
  proof cases
    case 1
    then show ?thesis
      using xs_def n_def by (simp add: percentile_cont_def median_def)
  next
    case (2 k)
    have pos: "(1/2::rat) * of_nat (n - 1) = of_nat k" using 2 by simp
    have "percentile_cont (1/2) vs = Some (xs ! k)"
      using 2 unfolding percentile_cont_def Let_def xs_def [symmetric] n_def [symmetric] pos
      by simp
    moreover have "median (non_null vs) = Some (xs ! k)"
      using 2 unfolding median_def Let_def xs_def [symmetric] n_def [symmetric]
      by simp
    ultimately show ?thesis by simp
  next
    case (3 k)
    have n1: "n - 1 = 2 * k + 1" using 3 by simp
    have "percentile_cont (1/2) vs = Some (xs ! k + (1/2) * (xs ! (k + 1) - xs ! k))"
      using 3 unfolding percentile_cont_def Let_def xs_def [symmetric] n_def [symmetric] n1
        floor_half_odd ceil_half_odd
      by (simp add: nat_add_distrib field_simps)
    moreover have "median (non_null vs) = Some ((xs ! k + xs ! (k + 1)) / 2)"
      using 3 unfolding median_def Let_def xs_def [symmetric] n_def [symmetric]
      by simp
    ultimately show ?thesis by (simp add: field_simps)
  qed
qed

lemma if_if_Nil: "(if P then (if Q then xs else []) else []) = (if P \<and> Q then xs else [])"
  by simp

lemma concat_map_if:
  "concat (map (\<lambda>x. if P x then [f x] else []) xs) = map f (filter P xs)"
  by (induction xs) auto

lemma join_distinct_list:
  "distinct xs \<Longrightarrow>
   concat (map (\<lambda>fb. if a = fb then ys else []) xs) = (if a \<in> set xs then ys else [])"
  by (induction xs) auto

lemma distinct_final_bench: "distinct (final_bench db p)"
  by (simp add: final_bench_def)

text \<open>The input of \<open>baseline_numeric\<close> is \<open>all_numeric_scores\<close> restricted to the cohort.\<close>

lemma baseline_numeric_x_eq:
  "baseline_numeric_x db p =
     [(r_tv_name r, r_user_score r).
      r \<leftarrow> all_numeric_scores db, r_employee_id r \<in> set (final_bench db p)]"
  by (simp add: baseline_numeric_x_def all_numeric_scores_def if_if_Nil concat_map_if
      filter_map comp_def conj_commute)

lemma numeric_group_values:
  "non_null [s. (t, s) \<leftarrow> baseline_numeric_x db p, t = tv] = numeric_cohort_readings db p tv"
  unfolding baseline_numeric_x_eq numeric_cohort_readings_def
  by (simp add: if_if_Nil concat_map_if filter_map comp_def case_prod_beta conj_commute)

lemma baseline_numeric_value:
  assumes "(tv, b) \<in> set (baseline_numeric db p)"
  shows "b = median (numeric_cohort_readings db p tv)"
proof -
  from assms have "b = percentile_cont (1/2) [s. (t, s) \<leftarrow> baseline_numeric_x db p, t = tv]"
    by (auto simp: baseline_numeric_def Let_def)
  then show ?thesis
    by (simp only: percentile_cont_half_median numeric_group_values)
qed

lemma baseline_numeric_exists:
  assumes "numeric_cohort_readings db p tv \<noteq> []"
  shows "(tv, median (numeric_cohort_readings db p tv)) \<in> set (baseline_numeric db p)"
proof -
  from assms obtain r where "r \<in> set (all_numeric_scores db)"
    "r_employee_id r \<in> set (final_bench db p)" "r_tv_name r = tv"
    by (auto simp: numeric_cohort_readings_def non_null_def split: if_splits)
  then have "tv \<in> set (map fst (baseline_numeric_x db p))"
    unfolding baseline_numeric_x_eq by force
  then have "(tv, percentile_cont (1/2) [s. (t, s) \<leftarrow> baseline_numeric_x db p, t = tv])
      \<in> set (baseline_numeric db p)"
    by (auto simp: baseline_numeric_def Let_def)
  then show ?thesis
    by (simp only: percentile_cont_half_median numeric_group_values)
qed

lemma left_join_reverse_list_eq: "left_join_reverse_list sc = [rl_of sc]"
  by (simp add: left_join_reverse_list_def reverse_list_def rl_of_def)

lemma baseline_papi_joined_eq:
  "baseline_papi_joined db p =
     map (\<lambda>ps. (ps, rl_of (ps_scale_code ps)))
       (filter (\<lambda>ps. ps_employee_id ps \<in> set (final_bench db p)) (papi_scores db))"
proof -
  have j: "\<And>a ys. concat (map (\<lambda>fb. if a = fb then ys else []) (final_bench db p))
      = (if a \<in> set (final_bench db p) then ys else [])"
    by (rule join_distinct_list [OF distinct_final_bench])
  have "baseline_papi_joined db p =
      concat (map (\<lambda>ps. if ps_employee_id ps \<in> set (final_bench db p)
                  then map (Pair ps) (left_join_reverse_list (ps_scale_code ps)) else [])
              (papi_scores db))"
    unfolding baseline_papi_joined_def by (simp only: j)
  also have "\<dots> = concat (map (\<lambda>ps. if ps_employee_id ps \<in> set (final_bench db p)
                  then [(ps, rl_of (ps_scale_code ps))] else [])
              (papi_scores db))"
    by (simp add: left_join_reverse_list_eq cong: if_cong)
  finally show ?thesis
    by (simp only: concat_map_if)
qed

lemma papi_group_aux:
  "concat (map (\<lambda>r. if (ps_scale_code (fst r), snd r) = (sc, G sc) then [ps_score (fst r)] else [])
             (map (\<lambda>ps. (ps, G (ps_scale_code ps))) (filter P xs)))
   = concat (map (\<lambda>ps. if P ps \<and> ps_scale_code ps = sc then [ps_score ps] else []) xs)"
  by (induction xs) auto

lemma papi_group_values:
  "non_null [ps_score (fst r). r \<leftarrow> baseline_papi_joined db p,
             (ps_scale_code (fst r), snd r) = (sc, rl_of sc)]
   = papi_cohort_readings db p sc"
  unfolding baseline_papi_joined_eq papi_cohort_readings_def papi_group_aux
  by (simp add: if_if_Nil)

lemma baseline_papi_keys:
  "k \<in> set [(ps_scale_code (fst r), snd r). r \<leftarrow> baseline_papi_joined db p]
   \<Longrightarrow> snd k = rl_of (fst k)"
  unfolding baseline_papi_joined_eq by auto

lemma baseline_papi_value:
  assumes "(sc, b, rv) \<in> set (baseline_papi db p)"
  shows "b = median (papi_cohort_readings db p sc) \<and> rv = (sc \<in> set reverse_list)"
proof -
  from assms obtain k
    where k: "k \<in> set [(ps_scale_code (fst r), snd r). r \<leftarrow> baseline_papi_joined db p]"
      and sc: "sc = fst k"
      and b: "b = percentile_cont (1/2) [ps_score (fst r). r \<leftarrow> baseline_papi_joined db p,
                (ps_scale_code (fst r), snd r) = k]"
      and rv: "rv = (case snd k of None \<Rightarrow> False | Some c \<Rightarrow> True)"
    by (auto simp: baseline_papi_def Let_def)
  from baseline_papi_keys [OF k] sc have keq: "k = (sc, rl_of sc)"
    by (cases k) simp
  have "b = median (papi_cohort_readings db p sc)"
    unfolding b keq by (simp only: percentile_cont_half_median papi_group_values)
  moreover have "rv = (sc \<in> set reverse_list)"
    unfolding rv keq by (simp add: rl_of_def)
  ultimately show ?thesis by simp
qed

lemma baseline_papi_exists:
  assumes "papi_cohort_readings db p sc \<noteq> []"
  shows "(sc, median (papi_cohort_readings db p sc), sc \<in> set reverse_list)
           \<in> set (baseline_papi db p)"
proof -
  from assms obtain ps where "ps \<in> set (papi_scores db)"
    "ps_employee_id ps \<in> set (final_bench db p)" "ps_scale_code ps = sc"
    by (auto simp: papi_cohort_readings_def non_null_def split: if_splits)
  then have "(sc, rl_of sc)
      \<in> set [(ps_scale_code (fst r), snd r). r \<leftarrow> baseline_papi_joined db p]"
    unfolding baseline_papi_joined_eq by force
  then have "(sc, percentile_cont (1/2) [ps_score (fst r). r \<leftarrow> baseline_papi_joined db p,
                (ps_scale_code (fst r), snd r) = (sc, rl_of sc)],
              (case rl_of sc of None \<Rightarrow> False | Some c \<Rightarrow> True)) \<in> set (baseline_papi db p)"
    unfolding baseline_papi_def Let_def by force
  then show ?thesis
    by (simp only: percentile_cont_half_median papi_group_values)
       (simp add: rl_of_def split: if_splits)
qed

text \<open>
  C2. Every baseline row of a continuous variable (\<open>baseline_numeric\<close>) and of a scale,
  reverse-scored or not (\<open>baseline_papi\<close>), holds the median of exactly the non-null
  readings of the cohort for that variable, and such a row exists as soon as the cohort
  has one reading; with no reading the baseline is null. The median of 10, 20, 30 is 20
  and the median of 10, 20, 30, 40 is 25.
\<close>

theorem C2_baseline_is_cohort_median:
  "((tv, b) \<in> set (baseline_numeric db p) \<longrightarrow> b = median (numeric_cohort_readings db p tv))
   \<and> (numeric_cohort_readings db p tv \<noteq> [] \<longrightarrow>
        (tv, median (numeric_cohort_readings db p tv)) \<in> set (baseline_numeric db p))
   \<and> ((sc, b', rv) \<in> set (baseline_papi db p) \<longrightarrow> b' = median (papi_cohort_readings db p sc))
   \<and> (papi_cohort_readings db p sc \<noteq> [] \<longrightarrow>
        (sc, median (papi_cohort_readings db p sc), sc \<in> set reverse_list)
          \<in> set (baseline_papi db p))
   \<and> median [] = None
   \<and> median [10, 20, 30] = Some 20
   \<and> median [10, 20, 30, 40] = Some 25"
proof -
  have "median [] = None" by (simp add: median_def)
  moreover have "median [10, 20, 30] = Some 20" by code_simp
  moreover have "median [10, 20, 30, 40] = Some 25" by code_simp
  ultimately show ?thesis
    using baseline_numeric_value [of tv b db p] baseline_numeric_exists [of db p tv]
      baseline_papi_value [of sc b' rv db p] baseline_papi_exists [of db p sc]
    by blast
qed

theorem C2_baseline_witness:
  "numeric_cohort_readings db_cohort p_manual ''iq'' = [10, 20, 30]
   \<and> (''iq'', Some 20) \<in> set (baseline_numeric db_cohort p_manual)
   \<and> numeric_cohort_readings db_cohort p_manual ''GDR'' = [10, 20]
   \<and> (''GDR'', Some 15) \<in> set (baseline_numeric db_cohort p_manual)
   \<and> papi_cohort_readings db_cohort p_manual ''Papi_I'' = [10, 20, 30, 40]
   \<and> (''Papi_I'', Some 25, True) \<in> set (baseline_papi db_cohort p_manual)"
proof -
  have 1: "numeric_cohort_readings db_cohort p_manual ''iq'' = [10, 20, 30]"
    by code_simp
  have 2: "papi_cohort_readings db_cohort p_manual ''Papi_I'' = [10, 20, 30, 40]"
    by code_simp
  have 3: "''Papi_I'' \<in> set reverse_list"
    by (simp add: reverse_list_def)
  have 4: "numeric_cohort_readings db_cohort p_manual ''GDR'' = [10, 20]"
    by code_simp
  have 5: "median [10, 20] = Some 15"
    by code_simp
  note c2 = C2_baseline_is_cohort_median
      [of "''iq''" "Some 20" db_cohort p_manual "''Papi_I''" "Some 25" True,
       unfolded 1 2]
  note c2' = C2_baseline_is_cohort_median
      [of "''GDR''" "Some 15" db_cohort p_manual "''Papi_I''" "Some 25" True,
       unfolded 4 2]
  have m: "median [10, 20, 30] = Some 20" "median [10, 20, 30, 40] = Some 25"
    using c2 by blast+
  have a: "(''iq'', median [10, 20, 30]) \<in> set (baseline_numeric db_cohort p_manual)"
    using c2 by blast
  have b: "(''Papi_I'', median [10, 20, 30, 40], ''Papi_I'' \<in> set reverse_list)
      \<in> set (baseline_papi db_cohort p_manual)"
    using c2 by blast
  have c: "(''GDR'', median [10, 20]) \<in> set (baseline_numeric db_cohort p_manual)"
    using c2' by blast
  show ?thesis
    using a b c unfolding m 5 by (simp only: 1 2 3 4 simp_thms)
qed

subsection \<open>The reverse formula\<close>

text \<open>
  C6 (as the code has it). For a reverse-scored scale with baseline \<open>b \<noteq> 0\<close>, the match
  rates of the readings \<open>b - d\<close> and \<open>b + d\<close> are \<open>100 + 100 d / b\<close> and \<open>100 - 100 d / b\<close>:
  they are mirror images about 100 and sum to 200, and they are equal only when \<open>d = 0\<close>.
\<close>

theorem C6_reverse_rates_mirror:
  "b \<noteq> 0 \<Longrightarrow>
   papi_match_rate True (Some b) (Some (b - d)) = Inr (Some (100 + 100 * d / b))
   \<and> papi_match_rate True (Some b) (Some (b + d)) = Inr (Some (100 - 100 * d / b))
   \<and> (papi_match_rate True (Some b) (Some (b - d)) = papi_match_rate True (Some b) (Some (b + d))
        \<longleftrightarrow> d = 0)"
  by (simp add: papi_match_rate_def times100_def sql_div_def sql_sub_def sql_mul_def
      nullif0_def field_simps)

theorem C6_reverse_rates_witness:
  "(10::rat) \<noteq> 0
   \<and> papi_match_rate True (Some 10) (Some (10 - 5)) = Inr (Some 150)
   \<and> papi_match_rate True (Some 10) (Some (10 + 5)) = Inr (Some 50)"
  using C6_reverse_rates_mirror [of 10 5] by simp

theorem C6_symmetry_counterexample:
  "papi_match_rate True (Some 10) (Some (10 - 5)) \<noteq> papi_match_rate True (Some 10) (Some (10 + 5))"
  by (simp add: papi_match_rate_def times100_def sql_div_def sql_sub_def sql_mul_def
      nullif0_def)

subsection \<open>Null values\<close>











subsection \<open>Division by zero\<close>

text \<open>The divisions of \<open>numeric_tv\<close> and \<open>papi_tv\<close> are guarded by \<open>NULLIF\<close>.\<close>

lemma numeric_match_rate_total: "\<exists>q. numeric_match_rate b u = Inr q"
  by (auto simp: numeric_match_rate_def times100_def sql_div_def nullif0_def split: option.splits)

lemma papi_match_rate_total: "\<exists>q. papi_match_rate rv b u = Inr q"
  by (auto simp: papi_match_rate_def times100_def sql_div_def sql_sub_def sql_mul_def nullif0_def
      split: option.splits)

lemma collect_total: "(\<forall>x \<in> set xs. \<exists>v. x = Inr v) \<Longrightarrow> \<exists>vs. collect xs = Inr vs"
  by (induction xs) auto

lemma numeric_tv_total: "\<exists>rows. numeric_tv db p = Inr rows"
proof -
  define F where "F = (\<lambda>(sc::reading) (bn::string \<times> rat option). case numeric_match_rate (snd bn) (r_user_score sc) of
          Inl e \<Rightarrow> Inl e
        | Inr rate \<Rightarrow>
            Inr \<lparr>tv_employee_id = r_employee_id sc, tv_name = fst bn,
                 tv_baseline_score = snd bn, tv_user_score = r_user_score sc,
                 tv_match_rate = rate\<rparr>)"
  have F: "\<exists>v. F sc bn = Inr v" for sc bn
    using numeric_match_rate_total [of "snd bn" "r_user_score sc"] by (auto simp: F_def)
  have "numeric_tv db p =
      collect [F sc bn. sc \<leftarrow> all_numeric_scores db, bn \<leftarrow> baseline_numeric db p,
               r_tv_name sc = fst bn]"
    unfolding numeric_tv_def F_def by (rule refl)
  moreover have "\<exists>vs. collect [F sc bn. sc \<leftarrow> all_numeric_scores db,
      bn \<leftarrow> baseline_numeric db p, r_tv_name sc = fst bn] = Inr vs"
    by (rule collect_total) (use F in auto)
  ultimately show ?thesis by simp
qed

lemma papi_tv_total: "\<exists>rows. papi_tv db p = Inr rows"
proof -
  define F where "F = (\<lambda>(ps::papi) (bp::string \<times> rat option \<times> bool). case papi_match_rate (snd (snd bp)) (fst (snd bp)) (ps_score ps) of
          Inl e \<Rightarrow> Inl e
        | Inr rate \<Rightarrow>
            Inr \<lparr>tv_employee_id = ps_employee_id ps, tv_name = fst bp,
                 tv_baseline_score = fst (snd bp), tv_user_score = ps_score ps,
                 tv_match_rate = rate\<rparr>)"
  have F: "\<exists>v. F ps bp = Inr v" for ps bp
    using papi_match_rate_total [of "snd (snd bp)" "fst (snd bp)" "ps_score ps"]
    by (auto simp: F_def)
  have "papi_tv db p =
      collect [F ps bp. ps \<leftarrow> papi_scores db, bp \<leftarrow> baseline_papi db p,
               ps_scale_code ps = fst bp]"
    unfolding papi_tv_def F_def by (rule refl)
  moreover have "\<exists>vs. collect [F ps bp. ps \<leftarrow> papi_scores db,
      bp \<leftarrow> baseline_papi db p, ps_scale_code ps = fst bp] = Inr vs"
    by (rule collect_total) (use F in auto)
  ultimately show ?thesis by simp
qed

lemma all_tv_total: "\<exists>rows. all_tv db p = Inr rows"
  using numeric_tv_total [of db p] papi_tv_total [of db p]
  by (auto simp: all_tv_def)

lemma non_null_Some: "non_null (map (\<lambda>r. Some (f r)) rows) = map f rows"
  by (induction rows) (simp_all add: non_null_def)

lemma sum_list_pos_rat: "xs \<noteq> [] \<Longrightarrow> \<forall>x \<in> set xs. (0::rat) < x \<Longrightarrow> 0 < sum_list xs"
  by (induction xs rule: list_nonempty_induct) (auto intro: add_pos_pos)

lemma tgv_denominator_pos:
  assumes "\<forall>r \<in> set rows. 0 < m_tv_weight (snd r)"
  shows "tgv_denominator rows = None \<or> (\<exists>d. tgv_denominator rows = Some d \<and> 0 < d)"
proof (cases "rows = []")
  case True
  then show ?thesis by (simp add: tgv_denominator_def sql_sum_def non_null_def)
next
  case False
  then have "0 < sum_list (map (\<lambda>r. m_tv_weight (snd r)) rows)"
    using assms by (intro sum_list_pos_rat) auto
  then show ?thesis
    using False by (simp add: tgv_denominator_def sql_sum_def non_null_Some)
qed

lemma sql_div_guarded:
  "d = None \<or> (\<exists>y. d = Some y \<and> 0 < y) \<Longrightarrow> \<exists>q. sql_div n d = Inr q"
  by (auto simp: sql_div_def split: option.splits)

text \<open>With positive weights the rollup division never raises.\<close>

lemma tgv_match_of_total:
  assumes "\<forall>m \<in> set tvm. 0 < m_tv_weight m"
  shows "\<exists>rows. tgv_match_of a tvm = Inr rows"
proof -
  define F where "F = (\<lambda>k::string \<times> string.
      case sql_div (tgv_numerator (tgv_group a tvm k)) (tgv_denominator (tgv_group a tvm k)) of
          Inl e \<Rightarrow> Inl e
        | Inr rate \<Rightarrow> Inr \<lparr>tgv_employee_id = fst k, tgv_name = snd k, tgv_match_rate = rate\<rparr>)"
  have w: "\<forall>r \<in> set (tgv_group a tvm k). 0 < m_tv_weight (snd r)" for k
    using assms by (auto simp: tgv_group_def tgv_joined_def)
  have F: "\<exists>v. F k = Inr v" for k
    using sql_div_guarded [OF tgv_denominator_pos [OF w [of k]], of "tgv_numerator (tgv_group a tvm k)"]
    by (auto simp: F_def)
  have "tgv_match_of a tvm =
      collect (map F (remdups [(tv_employee_id (fst r), m_tgv_name (snd r)). r \<leftarrow> tgv_joined a tvm]))"
    unfolding tgv_match_of_def F_def by (rule refl)
  moreover have "\<exists>vs. collect (map F (remdups
      [(tv_employee_id (fst r), m_tgv_name (snd r)). r \<leftarrow> tgv_joined a tvm])) = Inr vs"
    by (rule collect_total) (use F in auto)
  ultimately show ?thesis by simp
qed

text \<open>
  C7 at a group whose weights sum to 0. The only variable of group \<open>G\<close> has weight 0
  and \<open>E1\<close> has the match rate 100 for it: the quotient of \<open>tgv_match\<close> is 0 / 0 and
  the query raises \<open>division by zero\<close> and has no result.
\<close>

theorem C7_zero_weight_sum_raises:
  "group_inputs db_w0 p_E1 (''E1'', ''G'') = [(''iq'', Some 100, 0)]
   \<and> tgv_match db_w0 p_E1 = Inl DivisionByZero
   \<and> run_match_rows db_w0 p_E1 = Inl DivisionByZero
   \<and> (\<forall>out. \<not> run_match_query db_w0 p_E1 out)"
proof -
  have 1: "group_inputs db_w0 p_E1 (''E1'', ''G'') = [(''iq'', Some 100, 0)]"
    by code_simp
  have 2: "tgv_match db_w0 p_E1 = Inl DivisionByZero"
    by code_simp
  have 3: "run_match_rows db_w0 p_E1 = Inl DivisionByZero"
    by code_simp
  show ?thesis
    using 1 2 3 by (simp add: run_match_query_def)
qed

subsection \<open>Rollup\<close>

lemma collect_Inr: "collect xs = Inr vs \<Longrightarrow> xs = map Inr vs"
  by (induction xs arbitrary: vs) (auto split: sum.splits)

lemma non_null_defined:
  "\<forall>v \<in> set vs. v \<noteq> None \<Longrightarrow> non_null vs = map the vs"
  by (induction vs) (auto simp: non_null_def)

text \<open>
  Where every joined row of a group has a defined match rate, the group match rate is
  the weight-normalised mean of the rates.
\<close>

lemma tgv_match_of_defined:
  assumes ok: "tgv_match_of a m = Inr rows" and row: "row \<in> set rows"
    and grp: "grp = tgv_group a m (tgv_employee_id row, tgv_name row)"
    and defined: "\<forall>r \<in> set grp. tv_match_rate (fst r) \<noteq> None"
  shows "tgv_match_rate row =
      Some (sum_list [the (tv_match_rate (fst r)) * m_tv_weight (snd r). r \<leftarrow> grp]
            / sum_list [m_tv_weight (snd r). r \<leftarrow> grp])"
proof -
  define F where "F = (\<lambda>k::string \<times> string.
      case sql_div (tgv_numerator (tgv_group a m k)) (tgv_denominator (tgv_group a m k)) of
          Inl e \<Rightarrow> Inl e
        | Inr rate \<Rightarrow> Inr \<lparr>tgv_employee_id = fst k, tgv_name = snd k, tgv_match_rate = rate\<rparr>)"
  define keys where "keys = remdups [(tv_employee_id (fst r), m_tgv_name (snd r)). r \<leftarrow> tgv_joined a m]"
  have "tgv_match_of a m = collect (map F keys)"
    unfolding tgv_match_of_def F_def keys_def by (rule refl)
  with ok have "map F keys = map Inr rows" by (simp add: collect_Inr)
  with row obtain k where k: "k \<in> set keys" "F k = Inr row"
    by (metis (no_types, lifting) imageE image_eqI list.set_map)
  from k(2) obtain rate where rate: "sql_div (tgv_numerator (tgv_group a m k)) (tgv_denominator (tgv_group a m k)) = Inr rate"
    and rw: "row = \<lparr>tgv_employee_id = fst k, tgv_name = snd k, tgv_match_rate = rate\<rparr>"
    by (auto simp: F_def split: sum.splits)
  from rw have keq: "k = (tgv_employee_id row, tgv_name row)" by simp
  then have g: "tgv_group a m k = grp" using grp by simp
  from k(1) obtain r where "r \<in> set (tgv_joined a m)" "k = (tv_employee_id (fst r), m_tgv_name (snd r))"
    by (auto simp: keys_def)
  then have ne: "grp \<noteq> []"
    unfolding g [symmetric] tgv_group_def by (auto simp: filter_empty_conv concat_map_if)
  have num: "tgv_numerator grp = Some (sum_list [the (tv_match_rate (fst r)) * m_tv_weight (snd r). r \<leftarrow> grp])"
  proof -
    have d: "\<forall>v \<in> set [sql_mul (tv_match_rate (fst r)) (Some (m_tv_weight (snd r))). r \<leftarrow> grp]. v \<noteq> None"
      using defined by (auto simp: sql_mul_def split: option.splits)
    have e: "map the [sql_mul (tv_match_rate (fst r)) (Some (m_tv_weight (snd r))). r \<leftarrow> grp]
        = [the (tv_match_rate (fst r)) * m_tv_weight (snd r). r \<leftarrow> grp]"
      using defined by (auto simp: sql_mul_def split: option.splits)
    have "tgv_numerator grp
        = Some (sum_list (map the [sql_mul (tv_match_rate (fst r)) (Some (m_tv_weight (snd r))). r \<leftarrow> grp]))"
      using ne unfolding tgv_numerator_def sql_sum_def non_null_defined [OF d] by simp
    then show ?thesis
      unfolding e .
  qed
  have den: "tgv_denominator grp = Some (sum_list [m_tv_weight (snd r). r \<leftarrow> grp])"
    using ne by (simp add: tgv_denominator_def sql_sum_def non_null_Some)
  from rate have "rate = Some (sum_list [the (tv_match_rate (fst r)) * m_tv_weight (snd r). r \<leftarrow> grp]
            / sum_list [m_tv_weight (snd r). r \<leftarrow> grp])"
    unfolding g num den by (auto simp: sql_div_def split: if_splits)
  then show ?thesis using rw by simp
qed

text \<open>The final score is the sum of the defined products, with no division.\<close>

lemma final_match_of_rate:
  assumes "row \<in> set (final_match_of t g)"
  shows "fm_final_match_rate row =
      sql_sum [sql_mul (tgv_match_rate (fst r)) (Some (g_tgv_weight (snd r))).
               r \<leftarrow> final_joined t g, tgv_employee_id (fst r) = fm_employee_id row]"
  using assms by (auto simp: final_match_of_def)

text \<open>The example of the specification: weights 1 and 3, match rates 100 and 50.\<close>

lemma rollup_example:
  "tgv_match_of
     [\<lparr>tv_employee_id = ''E'', tv_name = ''v1'', tv_baseline_score = Some 1,
       tv_user_score = Some 1, tv_match_rate = Some 100\<rparr>,
      \<lparr>tv_employee_id = ''E'', tv_name = ''v2'', tv_baseline_score = Some 2,
       tv_user_score = Some 1, tv_match_rate = Some 50\<rparr>]
     [\<lparr>m_tv_name = ''v1'', m_tgv_name = ''G'', m_tv_weight = 1\<rparr>,
      \<lparr>m_tv_name = ''v2'', m_tgv_name = ''G'', m_tv_weight = 3\<rparr>]
   = Inr [\<lparr>tgv_employee_id = ''E'', tgv_name = ''G'', tgv_match_rate = Some (125 / 2)\<rparr>]"
  by code_simp

text \<open>
  C3 at a null reading. \<open>E2\<close> has no \<open>iq\<close> value, and \<open>gtq\<close> (weight 3) is the only
  variable of group \<open>G\<close> with a defined match rate, 50. The weighted mean over the defined
  rates is 50; \<open>tgv_match\<close> divides 150 by the weights of both rows, 4, and gives 37.5.
  The final score is the group rate times the group weight 2, with no division.
\<close>

theorem C3_group_rollup_at_null_reading:
  "group_inputs db_null p_E1 (''E2'', ''G'') = [(''iq'', None, 1), (''gtq'', Some 50, 3)]
   \<and> tgv_match db_null p_E1 =
       Inr [\<lparr>tgv_employee_id = ''E1'', tgv_name = ''G'', tgv_match_rate = Some 100\<rparr>,
            \<lparr>tgv_employee_id = ''E2'', tgv_name = ''G'', tgv_match_rate = Some (75 / 2)\<rparr>]
   \<and> final_match db_null p_E1 =
       Inr [\<lparr>fm_employee_id = ''E1'', fm_final_match_rate = Some 200\<rparr>,
            \<lparr>fm_employee_id = ''E2'', fm_final_match_rate = Some 75\<rparr>]"
  by code_simp

text \<open>
  C4 at a zero baseline. The baseline of \<open>iq\<close> is 0, so the match rate of \<open>iq\<close> is null
  for every employee. For \<open>E2\<close> the only defined rate of group \<open>G\<close> is 80 (\<open>gtq\<close>),
  yet \<open>tgv_match\<close> gives 40: the weight of \<open>iq\<close> stays in the denominator.
\<close>

theorem C4_zero_baseline_weight_in_denominator:
  "(''iq'', Some 0) \<in> set (baseline_numeric db_zero p_E1)
   \<and> group_inputs db_zero p_E1 (''E2'', ''G'') = [(''iq'', None, 1), (''gtq'', Some 80, 1)]
   \<and> tgv_match db_zero p_E1 =
       Inr [\<lparr>tgv_employee_id = ''E1'', tgv_name = ''G'', tgv_match_rate = Some 50\<rparr>,
            \<lparr>tgv_employee_id = ''E2'', tgv_name = ''G'', tgv_match_rate = Some 40\<rparr>]"
  by code_simp

subsection \<open>The order of the result\<close>

lemma desc_before_refl: "desc_before a a"
  by (simp add: desc_before_def split: option.splits)

lemma desc_before_total: "desc_before a b \<or> desc_before b a"
  by (auto simp: desc_before_def split: option.splits)

lemma desc_before_trans: "desc_before a b \<Longrightarrow> desc_before b c \<Longrightarrow> desc_before a c"
  by (auto simp: desc_before_def split: option.splits)

lemma desc_before_antisym: "desc_before a b \<Longrightarrow> desc_before b a \<Longrightarrow> a = b"
  by (auto simp: desc_before_def split: option.splits)

lemma order_by_desc_mset: "order_by_desc rows ys \<Longrightarrow> mset ys = mset rows"
  by (induction rule: order_by_desc.induct) auto

lemma order_by_desc_sorted:
  "order_by_desc rows ys \<Longrightarrow> sorted_wrt (\<lambda>a b. desc_before (out_final_match_rate a) (out_final_match_rate b)) ys"
proof (induction rule: order_by_desc.induct)
  case order_by_desc_Nil
  then show ?case by simp
next
  case (order_by_desc_Cons r rows ys)
  have "set ys \<subseteq> set rows"
    using order_by_desc_mset [OF order_by_desc_Cons(3)] by (metis set_mset_mset set_remove1_subset)
  then show ?case
    using order_by_desc_Cons by (auto simp: list_all_iff)
qed

lemma sorted_keys_unique:
  "mset ks = mset ks' \<Longrightarrow> sorted_wrt desc_before ks \<Longrightarrow> sorted_wrt desc_before ks' \<Longrightarrow> ks = ks'"
proof (induction ks arbitrary: ks')
  case Nil
  then show ?case by simp
next
  case (Cons a ks)
  then obtain b bs where ks': "ks' = b # bs" by (cases ks') auto
  have "a \<in> set ks'" using Cons.prems(1) by (metis list.set_intros(1) mset_eq_setD)
  then have ba: "desc_before b a"
    using Cons.prems(3) ks' by (auto simp: desc_before_refl)
  have "b \<in> set (a # ks)" using Cons.prems(1) ks' by (metis list.set_intros(1) mset_eq_setD)
  then have ab: "desc_before a b"
    using Cons.prems(2) by (auto simp: desc_before_refl)
  from desc_before_antisym [OF ab ba] have eq: "a = b" .
  with Cons.prems ks' have "mset ks = mset bs" "sorted_wrt desc_before ks" "sorted_wrt desc_before bs"
    by auto
  from Cons.IH [OF this] eq ks' show ?case by simp
qed

lemma order_by_desc_keys_unique:
  assumes "order_by_desc rows ys" "order_by_desc rows zs"
  shows "map out_final_match_rate ys = map out_final_match_rate zs"
proof -
  have "mset (map out_final_match_rate ys) = mset (map out_final_match_rate zs)"
    using order_by_desc_mset [OF assms(1)] order_by_desc_mset [OF assms(2)] by simp
  moreover have "sorted_wrt desc_before (map out_final_match_rate ys)"
    "sorted_wrt desc_before (map out_final_match_rate zs)"
    using order_by_desc_sorted [OF assms(1)] order_by_desc_sorted [OF assms(2)]
    by (simp_all add: sorted_wrt_map)
  ultimately show ?thesis by (rule sorted_keys_unique)
qed

lemma exists_first:
  fixes rows :: "out_row list"
  shows "rows \<noteq> [] \<Longrightarrow> \<exists>r \<in> set rows. list_all (\<lambda>r'. desc_before (out_final_match_rate r) (out_final_match_rate r')) rows"
proof (induction rows rule: list_nonempty_induct)
  case (single x)
  then show ?case by (simp add: desc_before_refl)
next
  case (cons x xs)
  then obtain r where r: "r \<in> set xs" "list_all (\<lambda>r'. rate_before r r') xs" by auto
  show ?case
  proof (cases "rate_before r x")
    case True
    then show ?thesis using r by auto
  next
    case False
    then have xr: "rate_before x r" using desc_before_total by blast
    have "list_all (\<lambda>r'. rate_before x r') xs"
      using r(2) xr by (auto simp: list_all_iff intro: desc_before_trans)
    then show ?thesis by (auto simp: desc_before_refl)
  qed
qed

lemma order_by_desc_total:
  fixes rows :: "out_row list"
  shows "\<exists>ys. order_by_desc rows ys"
proof (induction "length rows" arbitrary: rows)
  case 0
  then show ?case by (auto intro: order_by_desc.intros)
next
  case (Suc n)
  then have "rows \<noteq> []" by auto
  from exists_first [OF this] obtain r where r: "r \<in> set rows" "list_all (\<lambda>r'. rate_before r r') rows"
    by blast
  have "n = length (remove1 r rows)"
    using Suc(2) r(1) by (simp add: length_remove1)
  from Suc(1) [OF this] obtain ys where "order_by_desc (remove1 r rows) ys" by blast
  with r show ?case by (blast intro: order_by_desc.intros)
qed

lemma order_by_desc_limit_iff:
  "order_by_desc_limit n rows out \<longleftrightarrow> (\<exists>ys. order_by_desc rows ys \<and> out = take n ys)"
  by (auto simp: order_by_desc_limit.simps)



lemma run_match_query_total:
  "run_match_rows db p = Inr rows \<Longrightarrow> \<exists>out. run_match_query db p out"
  using order_by_desc_total [of rows]
  by (auto simp: run_match_query_def order_by_desc_limit_iff)

lemma run_match_query_error:
  "run_match_rows db p = Inl e \<Longrightarrow> \<not> run_match_query db p out"
  by (simp add: run_match_query_def)







lemma rows_undef:
  "run_match_rows db_undef p_E1 =
     Inr [\<lparr>out_employee_id = ''E1'', out_fullname = ''Ann'', out_final_match_rate = Some 100\<rparr>,
          \<lparr>out_employee_id = ''E2'', out_fullname = ''Bob'', out_final_match_rate = None\<rparr>]"
  by code_simp

text \<open>
  C9 at an undefined final score. Both match rates of \<open>E2\<close> are null, so the group
  match rate and the final score of \<open>E2\<close> are null; the only result of the query still holds the
  row of \<open>E2\<close>, and before the row of \<open>E1\<close>, whose score is 100.
\<close>

theorem C9_undefined_score_is_ranked_first:
  "group_inputs db_undef p_E1 (''E2'', ''G'') = [(''iq'', None, 1), (''gtq'', None, 1)]
   \<and> {out. run_match_query db_undef p_E1 out} =
     {[\<lparr>out_employee_id = ''E2'', out_fullname = ''Bob'', out_final_match_rate = None\<rparr>,
       \<lparr>out_employee_id = ''E1'', out_fullname = ''Ann'', out_final_match_rate = Some 100\<rparr>]}"
proof -
  let ?a = "\<lparr>out_employee_id = ''E1'', out_fullname = ''Ann'', out_final_match_rate = Some 100\<rparr>"
  let ?b = "\<lparr>out_employee_id = ''E2'', out_fullname = ''Bob'', out_final_match_rate = None\<rparr>"
  have g: "group_inputs db_undef p_E1 (''E2'', ''G'') = [(''iq'', None, 1), (''gtq'', None, 1)]"
    by code_simp
  have q: "run_match_query db_undef p_E1 out \<longleftrightarrow> (\<exists>ys. order_by_desc [?a, ?b] ys \<and> out = take 200 ys)"
    for out
    by (simp add: run_match_query_def rows_undef order_by_desc_limit_iff LIMIT_def)
  have ba: "order_by_desc [?a, ?b] [?b, ?a]"
    by (rule order_by_desc.intros; simp add: desc_before_def)+
  have only: "ys = [?b, ?a]" if ys: "order_by_desc [?a, ?b] ys" for ys
  proof -
    have "map out_final_match_rate ys = map out_final_match_rate [?b, ?a]"
      using order_by_desc_keys_unique [OF ys ba] .
    then obtain x y where xy: "ys = [x, y]" "out_final_match_rate x = None"
      "out_final_match_rate y = Some 100"
      by (auto simp: map_eq_Cons_conv)
    have m: "mset [x, y] = mset [?a, ?b]"
      using order_by_desc_mset [OF ys] xy(1) by simp
    then have "set [x, y] = set [?a, ?b]"
      by (rule mset_eq_setD)
    then have "x \<in> {?a, ?b}" "y \<in> {?a, ?b}"
      by auto
    then have "x = ?b" "y = ?a"
      using xy(2,3) by auto
    then show ?thesis using xy(1) by simp
  qed
  have "{out. run_match_query db_undef p_E1 out} = {[?b, ?a]}"
  proof (rule set_eqI)
    fix out
    show "out \<in> {out. run_match_query db_undef p_E1 out} \<longleftrightarrow> out \<in> {[?b, ?a]}"
    proof
      assume "out \<in> {out. run_match_query db_undef p_E1 out}"
      then obtain ys where ys: "order_by_desc [?a, ?b] ys" "out = take 200 ys"
        using q by auto
      from only [OF ys(1)] ys(2) show "out \<in> {[?b, ?a]}"
        by simp
    next
      assume "out \<in> {[?b, ?a]}"
      then have "order_by_desc [?a, ?b] [?b, ?a] \<and> out = take 200 [?b, ?a]"
        using ba by simp
      then have "run_match_query db_undef p_E1 out"
        unfolding q by (rule exI)
      then show "out \<in> {out. run_match_query db_undef p_E1 out}"
        by simp
    qed
  qed
  with g show ?thesis by simp
qed

end
